theory Spec2Isabelle
  imports Complex_Main "HOL-Library.Word"
begin

unbundle bit_operations_syntax

section \<open>Machine types\<close>

text \<open>
  Go's \<open>uint\<close> is taken at its width on 64-bit platforms. Arithmetic on these types wraps
  around, \<open>mod\<close> and \<open><\<close> are the unsigned ones, and \<open>sint\<close> reads the value the
  conversion \<open>int64(i)\<close> produces.
\<close>

type_synonym byte = "8 word"
type_synonym uint = "64 word"
type_synonym uint32 = "32 word"
type_synonym uint64 = "64 word"

text \<open>A loop counter below its bound can be incremented without wrapping around.\<close>

lemma unat_succ_less: "(i :: 'a::len word) < n \<Longrightarrow> unat (i + 1) = Suc (unat i)"
  by unat_arith

text \<open>The four base hash values of a key, Go's \<open>[4]uint64\<close>.\<close>

type_synonym hashes = "uint64 \<times> uint64 \<times> uint64 \<times> uint64"

text \<open>
  The package-level functions \<open>baseHashes\<close> and \<open>location\<close> are called by the filter but
  are not among the sources. The filter is modelled for any pair of such functions.
\<close>

record hashing =
  baseHashes :: "byte list \<Rightarrow> hashes"
  location :: "hashes \<Rightarrow> uint \<Rightarrow> uint64"

text \<open>
  A run-time panic of the Go program: the remainder of a division by zero, and a
  \<open>make\<close> of a slice whose length is out of range.
\<close>

datatype panic = DivideByZero | MakesliceLenOutOfRange

text \<open>
  The errors a decoder returns: \<open>io.EOF\<close> and \<open>io.ErrUnexpectedEOF\<close> from reading a
  stream, and the \<open>*json.UnmarshalTypeError\<close> of \<open>encoding/json\<close>.
\<close>

datatype error = EOF | ErrUnexpectedEOF | UnmarshalTypeError

text \<open>
  JSON documents, as values. Numbers are the integer literals, which is all the filter
  writes; the members of an object are kept in the order of the document.
\<close>

datatype json =
    JNull
  | JBool bool
  | JNumber int
  | JString string
  | JArray "json list"
  | JObject "(string \<times> json) list"

section \<open>The BitSet interface\<close>

text \<open>
  A value of interface type \<open>BitSet\<close> is a method table together with a receiver. The
  receiver is a handle of type \<open>'h\<close>; the bits themselves live in a world of type \<open>'w\<close>
  that every method call may read and change (for the Redis backend the world is the
  remote store, and each call is a request to it). A method that returns its receiver
  for chaining returns the world here. \<open>Test\<close> returns its answer and the world, so
  that a backend can be observed through the requests it receives. The arguments of a
  method come first, then the receiver, then the world.

  Streams are byte buffers (\<open>bytes.Buffer\<close>, as \<open>GobEncode\<close> and \<open>GobDecode\<close> use them):
  a writer appends to the buffer and cannot fail, a reader consumes a prefix of it.
  \<open>WriteTo\<close> returns the byte count and the buffer; \<open>ReadFrom\<close> returns an error or
  the byte count, together with the receiver, the world and the rest of the buffer as
  the call leaves them. \<open>bsJSON\<close> is the value \<open>json.Marshal\<close> writes for the receiver.
\<close>

record ('h, 'w) BitSet =
  bsInit :: "uint \<Rightarrow> 'h \<Rightarrow> 'w \<Rightarrow> 'w"
  bsSet :: "uint \<Rightarrow> 'h \<Rightarrow> 'w \<Rightarrow> 'w"
  bsUnSet :: "uint \<Rightarrow> 'h \<Rightarrow> 'w \<Rightarrow> 'w"
  bsTest :: "uint \<Rightarrow> 'h \<Rightarrow> 'w \<Rightarrow> bool \<times> 'w"
  bsClearAll :: "'h \<Rightarrow> 'w \<Rightarrow> 'w"
  bsFrom :: "uint64 list \<Rightarrow> 'h \<Rightarrow> 'w \<Rightarrow> 'w"
  bsWriteTo :: "byte list \<Rightarrow> 'h \<Rightarrow> 'w \<Rightarrow> int \<times> byte list"
  bsReadFrom ::
    "byte list \<Rightarrow> 'h \<Rightarrow> 'w \<Rightarrow> (panic + error + int) \<times> 'h \<times> 'w \<times> byte list"
  bsEqual :: "'h \<Rightarrow> 'h \<Rightarrow> 'w \<Rightarrow> bool"
  bsGetBitSetKey :: "'h \<Rightarrow> byte list"
  bsJSON :: "'h \<Rightarrow> 'w \<Rightarrow> json"

section \<open>The filter\<close>

text \<open>
  The struct \<open>bloomFilterImpl\<close> with its fields \<open>m\<close>, \<open>k\<close> and \<open>b\<close>. The type of the
  field \<open>b\<close> is a parameter: a filter in use holds a handle.
\<close>

record 'b bloomFilterImpl =
  f_m :: uint
  f_k :: uint
  f_b :: 'b

text \<open>
  The method \<open>location\<close> of the filter: \<open>uint(location(h, i) % uint64(f.m))\<close>. The
  remainder of a division by zero is a run-time panic in Go.
\<close>

definition bloomFilterImpl_location ::
  "hashing \<Rightarrow> 'h bloomFilterImpl \<Rightarrow> hashes \<Rightarrow> uint \<Rightarrow> panic + uint" where
  "bloomFilterImpl_location H f h i =
     (if f_m f = 0 then Inl DivideByZero else Inr (location H h i mod f_m f))"

definition Cap :: "'h bloomFilterImpl \<Rightarrow> uint" where
  "Cap f = f_m f"

definition K :: "'h bloomFilterImpl \<Rightarrow> uint" where
  "K f = f_k f"

text \<open>
  \<open>Add\<close>: the loop \<open>for i := uint(0); i < f.k; i++\<close> sets one bit per round. The filter
  itself is not changed, so the model returns the world only.
\<close>

function Add_loop ::
  "('h, 'w) BitSet \<Rightarrow> hashing \<Rightarrow> 'h bloomFilterImpl \<Rightarrow> hashes \<Rightarrow> uint \<Rightarrow> 'w \<Rightarrow> panic + 'w" where
  "Add_loop B H f h i w =
     (if i < f_k f then
        (case bloomFilterImpl_location H f h i of
           Inl e \<Rightarrow> Inl e
         | Inr l \<Rightarrow> Add_loop B H f h (i + 1) (bsSet B l (f_b f) w))
      else Inr w)"
  by pat_completeness auto
termination
  by (relation "measure (\<lambda>(B, H, f, h, i, w). unat (f_k f) - unat i)")
     (auto simp: unat_succ_less word_less_nat_alt)

definition Add ::
  "('h, 'w) BitSet \<Rightarrow> hashing \<Rightarrow> 'h bloomFilterImpl \<Rightarrow> byte list \<Rightarrow> 'w \<Rightarrow> panic + 'w" where
  "Add B H f data w = Add_loop B H f (baseHashes H data) 0 w"

text \<open>\<open>Test\<close>: the loop returns false at the first bit that is not set.\<close>

function Test_loop ::
  "('h, 'w) BitSet \<Rightarrow> hashing \<Rightarrow> 'h bloomFilterImpl \<Rightarrow> hashes \<Rightarrow> uint \<Rightarrow> 'w
     \<Rightarrow> panic + bool \<times> 'w" where
  "Test_loop B H f h i w =
     (if i < f_k f then
        (case bloomFilterImpl_location H f h i of
           Inl e \<Rightarrow> Inl e
         | Inr l \<Rightarrow>
             (case bsTest B l (f_b f) w of
                (t, w') \<Rightarrow> if \<not> t then Inr (False, w') else Test_loop B H f h (i + 1) w'))
      else Inr (True, w))"
  by pat_completeness auto
termination
  by (relation "measure (\<lambda>(B, H, f, h, i, w). unat (f_k f) - unat i)")
     (auto simp: unat_succ_less word_less_nat_alt)

definition Test ::
  "('h, 'w) BitSet \<Rightarrow> hashing \<Rightarrow> 'h bloomFilterImpl \<Rightarrow> byte list \<Rightarrow> 'w
     \<Rightarrow> panic + bool \<times> 'w" where
  "Test B H f data w = Test_loop B H f (baseHashes H data) 0 w"

text \<open>
  \<open>TestLocations\<close>: the loop runs over the slice \<open>locs\<close> from its first element;
  each value is reduced by \<open>locs[i] % uint64(f.m)\<close>.
\<close>

fun TestLocations ::
  "('h, 'w) BitSet \<Rightarrow> 'h bloomFilterImpl \<Rightarrow> uint64 list \<Rightarrow> 'w \<Rightarrow> panic + bool \<times> 'w" where
  "TestLocations B f [] w = Inr (True, w)"
| "TestLocations B f (loc # locs) w =
     (if f_m f = 0 then Inl DivideByZero
      else (case bsTest B (loc mod f_m f) (f_b f) w of
              (t, w') \<Rightarrow> if \<not> t then Inr (False, w') else TestLocations B f locs w'))"

text \<open>\<open>TestAndAdd\<close>: every round tests the bit, then sets it.\<close>

function TestAndAdd_loop ::
  "('h, 'w) BitSet \<Rightarrow> hashing \<Rightarrow> 'h bloomFilterImpl \<Rightarrow> hashes \<Rightarrow> uint \<Rightarrow> bool \<Rightarrow> 'w
     \<Rightarrow> panic + bool \<times> 'w" where
  "TestAndAdd_loop B H f h i present w =
     (if i < f_k f then
        (case bloomFilterImpl_location H f h i of
           Inl e \<Rightarrow> Inl e
         | Inr l \<Rightarrow>
             (case bsTest B l (f_b f) w of
                (t, w') \<Rightarrow>
                  TestAndAdd_loop B H f h (i + 1) (if \<not> t then False else present)
                    (bsSet B l (f_b f) w')))
      else Inr (present, w))"
  by pat_completeness auto
termination
  by (relation "measure (\<lambda>(B, H, f, h, i, present, w). unat (f_k f) - unat i)")
     (auto simp: unat_succ_less word_less_nat_alt)

definition TestAndAdd ::
  "('h, 'w) BitSet \<Rightarrow> hashing \<Rightarrow> 'h bloomFilterImpl \<Rightarrow> byte list \<Rightarrow> 'w
     \<Rightarrow> panic + bool \<times> 'w" where
  "TestAndAdd B H f data w = TestAndAdd_loop B H f (baseHashes H data) 0 True w"

text \<open>\<open>TestOrAdd\<close>: a round sets the bit only when the test found it unset.\<close>

function TestOrAdd_loop ::
  "('h, 'w) BitSet \<Rightarrow> hashing \<Rightarrow> 'h bloomFilterImpl \<Rightarrow> hashes \<Rightarrow> uint \<Rightarrow> bool \<Rightarrow> 'w
     \<Rightarrow> panic + bool \<times> 'w" where
  "TestOrAdd_loop B H f h i present w =
     (if i < f_k f then
        (case bloomFilterImpl_location H f h i of
           Inl e \<Rightarrow> Inl e
         | Inr l \<Rightarrow>
             (case bsTest B l (f_b f) w of
                (t, w') \<Rightarrow>
                  if \<not> t then TestOrAdd_loop B H f h (i + 1) False (bsSet B l (f_b f) w')
                  else TestOrAdd_loop B H f h (i + 1) present w'))
      else Inr (present, w))"
  by pat_completeness auto
termination
  by (relation "measure (\<lambda>(B, H, f, h, i, present, w). unat (f_k f) - unat i)")
     (auto simp: unat_succ_less word_less_nat_alt)

definition TestOrAdd ::
  "('h, 'w) BitSet \<Rightarrow> hashing \<Rightarrow> 'h bloomFilterImpl \<Rightarrow> byte list \<Rightarrow> 'w
     \<Rightarrow> panic + bool \<times> 'w" where
  "TestOrAdd B H f data w = TestOrAdd_loop B H f (baseHashes H data) 0 True w"


section \<open>Constructors\<close>

text \<open>
  Modelled from the spec: the helper \<open>max\<close> that \<open>New\<close> calls is not among the sources.
  \<open>New\<close> "clamps \<open>m\<close>, \<open>k\<close> to a minimum of 1", and the comment on \<open>New\<close> says that
  both are forced to be at least one: \<open>max\<close> is the greater of two unsigned values.
\<close>

definition max_uint :: "uint \<Rightarrow> uint \<Rightarrow> uint" where
  "max_uint x y = (if x < y then y else x)"

text \<open>
  \<open>New\<close> stores \<open>max(1, m)\<close> and \<open>max(1, k)\<close> and the storage that \<open>b.Init(m)\<close>
  returns; \<open>Init\<close> receives the argument \<open>m\<close> itself.
\<close>

definition New ::
  "('h, 'w) BitSet \<Rightarrow> uint \<Rightarrow> uint \<Rightarrow> 'h \<Rightarrow> 'w \<Rightarrow> 'h bloomFilterImpl \<times> 'w" where
  "New B m k b w = (\<lparr>f_m = max_uint 1 m, f_k = max_uint 1 k, f_b = b\<rparr>, bsInit B m b w)"

text \<open>
  \<open>FromWithM\<close> and \<open>From\<close>. The length \<open>len(data) * 64\<close> is computed in Go's \<open>int\<close>
  and converted to \<open>uint\<close>: it wraps around at 64 bits.
\<close>

definition FromWithM ::
  "('h, 'w) BitSet \<Rightarrow> uint64 list \<Rightarrow> uint \<Rightarrow> uint \<Rightarrow> 'h \<Rightarrow> 'w \<Rightarrow> 'h bloomFilterImpl \<times> 'w" where
  "FromWithM B data m k b w = (\<lparr>f_m = m, f_k = k, f_b = b\<rparr>, bsFrom B data b w)"

definition From ::
  "('h, 'w) BitSet \<Rightarrow> uint64 list \<Rightarrow> uint \<Rightarrow> 'h \<Rightarrow> 'w \<Rightarrow> 'h bloomFilterImpl \<times> 'w" where
  "From B data k b w = FromWithM B data (of_nat (length data) * 64) k b w"

text \<open>
  \<open>Equal\<close>: the receiver \<open>f\<close> compares its fields with \<open>g.Cap()\<close>, \<open>g.K()\<close> and
  \<open>g.BitSet()\<close>.
\<close>

definition Equal ::
  "('h, 'w) BitSet \<Rightarrow> 'h bloomFilterImpl \<Rightarrow> 'h bloomFilterImpl \<Rightarrow> 'w \<Rightarrow> bool" where
  "Equal B g f w \<longleftrightarrow> f_m f = Cap g \<and> f_k f = K g \<and> bsEqual B (f_b g) (f_b f) w"

section \<open>Byte order\<close>

text \<open>
  \<open>binary.BigEndian\<close> and \<open>binary.LittleEndian\<close>: \<open>PutUint32\<close> and \<open>PutUint64\<close> give
  the bytes they store, \<open>Uint64\<close> reads eight bytes.
\<close>

definition BigEndian_PutUint32 :: "uint32 \<Rightarrow> byte list" where
  "BigEndian_PutUint32 v =
     [ucast (drop_bit 24 v), ucast (drop_bit 16 v), ucast (drop_bit 8 v), ucast v]"

definition BigEndian_PutUint64 :: "uint64 \<Rightarrow> byte list" where
  "BigEndian_PutUint64 v =
     [ucast (drop_bit 56 v), ucast (drop_bit 48 v), ucast (drop_bit 40 v),
      ucast (drop_bit 32 v), ucast (drop_bit 24 v), ucast (drop_bit 16 v),
      ucast (drop_bit 8 v), ucast v]"

definition LittleEndian_PutUint64 :: "uint64 \<Rightarrow> byte list" where
  "LittleEndian_PutUint64 v = rev (BigEndian_PutUint64 v)"

definition BigEndian_Uint64 :: "byte list \<Rightarrow> uint64" where
  "BigEndian_Uint64 b =
     ucast (b ! 7) OR push_bit 8 (ucast (b ! 6)) OR push_bit 16 (ucast (b ! 5)) OR
     push_bit 24 (ucast (b ! 4)) OR push_bit 32 (ucast (b ! 3)) OR
     push_bit 40 (ucast (b ! 2)) OR push_bit 48 (ucast (b ! 1)) OR
     push_bit 56 (ucast (b ! 0))"

section \<open>Streams\<close>

text \<open>
  \<open>binary.Read(stream, binary.BigEndian, &x)\<close> for a \<open>uint64\<close> reads eight bytes with
  \<open>io.ReadFull\<close>: \<open>io.EOF\<close> when the buffer is empty, \<open>io.ErrUnexpectedEOF\<close> when it
  holds fewer than eight bytes (they are consumed).
\<close>

definition binary_Read_uint64 :: "byte list \<Rightarrow> (error + uint64) \<times> byte list" where
  "binary_Read_uint64 s =
     (if s = [] then (Inl EOF, [])
      else if length s < 8 then (Inl ErrUnexpectedEOF, [])
      else (Inr (BigEndian_Uint64 (take 8 s)), drop 8 s))"

text \<open>
  \<open>stream.Read(p)\<close> on a buffer, for a slice \<open>p\<close> of \<open>n\<close> zero bytes as \<open>make\<close> returns
  it: one call copies what the buffer holds, at most \<open>n\<close> bytes, and reports how many;
  \<open>io.EOF\<close> only when the buffer is empty and \<open>n\<close> is not zero. The result is the count
  and the slice after the call.
\<close>

definition Buffer_Read :: "byte list \<Rightarrow> nat \<Rightarrow> (error + nat \<times> byte list) \<times> byte list" where
  "Buffer_Read s n =
     (if s = [] then (if n = 0 then (Inr (0, []), []) else (Inl EOF, []))
      else (Inr (min n (length s), take n s @ replicate (n - length s) 0), drop n s))"

text \<open>
  \<open>make([]byte, n, n)\<close> for a \<open>uint64\<close> length \<open>n\<close>: the run-time system panics with
  \<open>makeslice: len out of range\<close> when \<open>int(n)\<close> is negative or the slice would be
  larger than \<open>maxAlloc\<close>, the largest allocation it admits, which is \<open>2 ^ 48\<close> bytes
  where \<open>uint\<close> has 64 bits and addresses have 48; so it panics exactly for the
  lengths above \<open>maxAlloc\<close>. An allocation within this limit is taken to succeed: a
  machine that cannot provide the memory ends the program, which is not modelled.
\<close>

definition maxAlloc :: nat where
  "maxAlloc = 2 ^ 48"

definition makeslice_ok :: "uint64 \<Rightarrow> bool" where
  "makeslice_ok n \<longleftrightarrow> unat n \<le> maxAlloc"

section \<open>Encoding and decoding a filter\<close>

text \<open>
  \<open>WriteTo\<close> writes \<open>m\<close> and \<open>k\<close> as big-endian 64-bit values, then the storage's own
  payload.
\<close>

definition WriteTo ::
  "('h, 'w) BitSet \<Rightarrow> byte list \<Rightarrow> 'h bloomFilterImpl \<Rightarrow> 'w \<Rightarrow> int \<times> byte list" where
  "WriteTo B s f w =
     (let s1 = s @ BigEndian_PutUint64 (f_m f);
          s2 = s1 @ BigEndian_PutUint64 (f_k f)
      in case bsWriteTo B s2 (f_b f) w of (numBytes, s3) \<Rightarrow> (numBytes + 16, s3))"

text \<open>
  \<open>ReadFrom\<close> assigns \<open>f.m\<close> and \<open>f.k\<close> only after the storage has read its payload.
  The storage is reached through the field \<open>b\<close>, so whatever the storage's \<open>ReadFrom\<close>
  did to its receiver is the filter's storage afterwards, also when an error is
  returned or the storage panics. The outcome is a panic (\<open>Inl\<close>), a returned error
  (\<open>Inr (Inl err)\<close>) or the number of bytes read (\<open>Inr (Inr n)\<close>), with the filter, the
  world and the rest of the stream as they are at that moment.
\<close>

definition ReadFrom ::
  "('h, 'w) BitSet \<Rightarrow> byte list \<Rightarrow> 'h bloomFilterImpl \<Rightarrow> 'w
     \<Rightarrow> (panic + error + int) \<times> 'h bloomFilterImpl \<times> 'w \<times> byte list" where
  "ReadFrom B s f w =
     (case binary_Read_uint64 s of
        (Inl err, s1) \<Rightarrow> (Inr (Inl err), f, w, s1)
      | (Inr m, s1) \<Rightarrow>
          (case binary_Read_uint64 s1 of
             (Inl err, s2) \<Rightarrow> (Inr (Inl err), f, w, s2)
           | (Inr k, s2) \<Rightarrow>
               (case bsReadFrom B s2 (f_b f) w of
                  (Inl p, b', w', s3) \<Rightarrow> (Inl p, f\<lparr>f_b := b'\<rparr>, w', s3)
                | (Inr (Inl err), b', w', s3) \<Rightarrow> (Inr (Inl err), f\<lparr>f_b := b'\<rparr>, w', s3)
                | (Inr (Inr numBytes), b', w', s3) \<Rightarrow>
                    (Inr (Inr (numBytes + 16)), \<lparr>f_m = m, f_k = k, f_b = b'\<rparr>, w', s3))))"

text \<open>
  \<open>MarshalJSON\<close> marshals the struct \<open>bloomFilterJSON{f.m, f.k, f.b}\<close> with its members
  \<open>m\<close>, \<open>k\<close> and \<open>b\<close>.
\<close>

definition MarshalJSON :: "('h, 'w) BitSet \<Rightarrow> 'h bloomFilterImpl \<Rightarrow> 'w \<Rightarrow> json" where
  "MarshalJSON B f w =
     JObject [(''m'', JNumber (uint (f_m f))), (''k'', JNumber (uint (f_k f))),
              (''b'', bsJSON B (f_b f) w)]"

text \<open>
  \<open>json.Unmarshal(data, &j)\<close> for a fresh \<open>j\<close> of type \<open>bloomFilterJSON\<close>, whose fields
  are \<open>M uint\<close>, \<open>K uint\<close> and \<open>B BitSet\<close>. A member is matched to a field by its name,
  ignoring case; other members are skipped. A \<open>uint\<close> field takes a number in range
  and is left alone by \<open>null\<close>. The field \<open>B\<close> has an interface type with methods and
  holds \<open>nil\<close>: \<open>null\<close> leaves it \<open>nil\<close>, and every other value is a type error,
  since the decoder has no concrete type to fill. The decoder goes on after a type
  error and returns the first one. The struct is a triple here, \<open>None\<close> for \<open>nil\<close>.
\<close>

fun decode_uint :: "json \<Rightarrow> uint \<Rightarrow> error + uint" where
  "decode_uint JNull cur = Inr cur"
| "decode_uint (JNumber n) cur =
     (if 0 \<le> n \<and> n < 2 ^ 64 then Inr (word_of_int n) else Inl UnmarshalTypeError)"
| "decode_uint _ cur = Inl UnmarshalTypeError"

fun decode_BitSet :: "json \<Rightarrow> error + 'h option" where
  "decode_BitSet JNull = Inr None"
| "decode_BitSet _ = Inl UnmarshalTypeError"

definition save_error :: "error option \<Rightarrow> error \<Rightarrow> error option" where
  "save_error err e = (if err = None then Some e else err)"

definition decode_member ::
  "string \<times> json \<Rightarrow> error option \<times> uint \<times> uint \<times> 'h option
     \<Rightarrow> error option \<times> uint \<times> uint \<times> 'h option" where
  "decode_member member st =
     (case (member, st) of
        ((name, v), (err, jM, jK, jB)) \<Rightarrow>
          if name = ''m'' \<or> name = ''M'' then
            (case decode_uint v jM of
               Inl e \<Rightarrow> (save_error err e, jM, jK, jB)
             | Inr jM' \<Rightarrow> (err, jM', jK, jB))
          else if name = ''k'' \<or> name = ''K'' then
            (case decode_uint v jK of
               Inl e \<Rightarrow> (save_error err e, jM, jK, jB)
             | Inr jK' \<Rightarrow> (err, jM, jK', jB))
          else if name = ''b'' \<or> name = ''B'' then
            (case decode_BitSet v of
               Inl e \<Rightarrow> (save_error err e, jM, jK, jB)
             | Inr jB' \<Rightarrow> (err, jM, jK, jB'))
          else (err, jM, jK, jB))"

fun decode_members ::
  "(string \<times> json) list \<Rightarrow> error option \<times> uint \<times> uint \<times> 'h option
     \<Rightarrow> error option \<times> uint \<times> uint \<times> 'h option" where
  "decode_members [] st = st"
| "decode_members (member # ms) st = decode_members ms (decode_member member st)"

fun json_Unmarshal :: "json \<Rightarrow> error option \<times> uint \<times> uint \<times> 'h option" where
  "json_Unmarshal (JObject ms) = decode_members ms (None, 0, 0, None)"
| "json_Unmarshal JNull = (None, 0, 0, None)"
| "json_Unmarshal _ = (Some UnmarshalTypeError, 0, 0, None)"

text \<open>
  \<open>UnmarshalJSON\<close> returns the error of \<open>json.Unmarshal\<close> and leaves the filter as it
  was, or assigns all three fields from \<open>j\<close>. The result is the error, or the filter
  after the assignments; its storage field may hold \<open>nil\<close>.
\<close>

definition UnmarshalJSON :: "json \<Rightarrow> error + ('h option) bloomFilterImpl" where
  "UnmarshalJSON data =
     (case json_Unmarshal data of
        (Some err, jM, jK, jB) \<Rightarrow> Inl err
      | (None, jM, jK, jB) \<Rightarrow> Inr \<lparr>f_m = jM, f_k = jK, f_b = jB\<rparr>)"

section \<open>Estimating the false positive rate\<close>

text \<open>
  \<open>EstimateFalsePositiveRate\<close>: both loops count in \<open>uint32\<close>, and \<open>n\<close> enters them
  as \<open>uint32(n)\<close>. The quotient \<open>float64(fp) / float64(rounds)\<close> is taken as the
  rational number it stands for.
\<close>

function EstimateFalsePositiveRate_populate ::
  "('h, 'w) BitSet \<Rightarrow> hashing \<Rightarrow> 'h bloomFilterImpl \<Rightarrow> uint32 \<Rightarrow> uint32 \<Rightarrow> 'w \<Rightarrow> panic + 'w" where
  "EstimateFalsePositiveRate_populate B H f n i w =
     (if i < n then
        (case Add B H f (BigEndian_PutUint32 i) w of
           Inl e \<Rightarrow> Inl e
         | Inr w' \<Rightarrow> EstimateFalsePositiveRate_populate B H f n (i + 1) w')
      else Inr w)"
  by pat_completeness auto
termination
  by (relation "measure (\<lambda>(B, H, f, n, i, w). unat n - unat i)")
     (auto simp: unat_succ_less word_less_nat_alt)

function EstimateFalsePositiveRate_probe ::
  "('h, 'w) BitSet \<Rightarrow> hashing \<Rightarrow> 'h bloomFilterImpl \<Rightarrow> uint32 \<Rightarrow> uint32 \<Rightarrow> uint32 \<Rightarrow> int \<Rightarrow> 'w
     \<Rightarrow> panic + int \<times> 'w" where
  "EstimateFalsePositiveRate_probe B H f n rounds i fp w =
     (if i < rounds then
        (case Test B H f (BigEndian_PutUint32 (i + n + 1)) w of
           Inl e \<Rightarrow> Inl e
         | Inr (t, w') \<Rightarrow>
             EstimateFalsePositiveRate_probe B H f n rounds (i + 1) (if t then fp + 1 else fp) w')
      else Inr (fp, w))"
  by pat_completeness auto
termination
  by (relation "measure (\<lambda>(B, H, f, n, rounds, i, fp, w). unat rounds - unat i)")
     (auto simp: unat_succ_less word_less_nat_alt)


section \<open>The Redis backend\<close>

text \<open>
  The remote store holds a byte string under each key; a key that does not exist reads
  as the empty string (\<open>Val()\<close> of a \<open>GET\<close>, \<open>GETBIT\<close> and \<open>SETBIT\<close> treat it so). The
  client's commands are modelled as the Redis documentation gives them:
  \<^item> \<open>SETBIT\<close> and \<open>GETBIT\<close> address bit \<open>offset\<close> as bit \<open>7 - offset mod 8\<close> of byte
    \<open>offset div 8\<close>; \<open>SETBIT\<close> pads the string with zero bytes up to that byte;
    \<open>GETBIT\<close> reads 0 beyond the end;
  \<^item> a negative offset, which is what \<open>int64(i)\<close> gives for \<open>i\<close> from \<open>2 ^ 63\<close> on,
    or a bit value other than 0 and 1, is refused with an error reply; the program never
    looks at the error of a reply, and \<open>Val()\<close> of a refused \<open>GETBIT\<close> is 0;
  \<^item> \<open>SET\<close> replaces the string.
  Requests are answered and never fail otherwise: the limit a server puts on the
  length of a string is a matter of its configuration and is not modelled. The expiry
  of keys passes in real time and is not modelled either: a key keeps its string until
  a command replaces it.
\<close>

type_synonym redis = "byte list \<Rightarrow> byte list"

definition bytes_getbit :: "byte list \<Rightarrow> nat \<Rightarrow> bool" where
  "bytes_getbit v off \<longleftrightarrow> off div 8 < length v \<and> bit (v ! (off div 8)) (7 - off mod 8)"

definition bytes_setbit :: "byte list \<Rightarrow> nat \<Rightarrow> bool \<Rightarrow> byte list" where
  "bytes_setbit v off x =
     (let v' = v @ replicate (Suc (off div 8) - length v) 0;
          old = v' ! (off div 8)
      in v'[off div 8 := (if x then set_bit (7 - off mod 8) old
                          else unset_bit (7 - off mod 8) old)])"

definition redis_offset_ok :: "int \<Rightarrow> bool" where
  "redis_offset_ok off \<longleftrightarrow> 0 \<le> off"

definition redis_SetBit :: "redis \<Rightarrow> byte list \<Rightarrow> int \<Rightarrow> int \<Rightarrow> redis" where
  "redis_SetBit w key off v =
     (if redis_offset_ok off \<and> (v = 0 \<or> v = 1)
      then w(key := bytes_setbit (w key) (nat off) (v = 1))
      else w)"

definition redis_GetBit :: "redis \<Rightarrow> byte list \<Rightarrow> int \<Rightarrow> int" where
  "redis_GetBit w key off =
     (if redis_offset_ok off \<and> bytes_getbit (w key) (nat off) then 1 else 0)"

definition redis_Set :: "redis \<Rightarrow> byte list \<Rightarrow> byte list \<Rightarrow> 64 word \<Rightarrow> redis" where
  "redis_Set w key v expiration = w(key := v)"

definition redis_Get :: "redis \<Rightarrow> byte list \<Rightarrow> byte list" where
  "redis_Get w key = w key"

text \<open>
  The struct \<open>RedisBitSet\<close>; its field \<open>redisClient\<close> is the world. A \<open>time.Duration\<close>
  is a 64-bit count of nanoseconds.
\<close>

record RedisBitSet =
  bitsetKey :: "byte list"
  expiration :: "64 word"

definition RedisBitSet_UnSet :: "uint \<Rightarrow> RedisBitSet \<Rightarrow> redis \<Rightarrow> redis" where
  "RedisBitSet_UnSet i r w = redis_SetBit w (bitsetKey r) (sint i) 0"

definition RedisBitSet_Init :: "uint \<Rightarrow> RedisBitSet \<Rightarrow> redis \<Rightarrow> redis" where
  "RedisBitSet_Init len r w = RedisBitSet_UnSet len r w"

definition RedisBitSet_Set :: "uint \<Rightarrow> RedisBitSet \<Rightarrow> redis \<Rightarrow> redis" where
  "RedisBitSet_Set i r w = redis_SetBit w (bitsetKey r) (sint i) 1"

definition RedisBitSet_Test :: "uint \<Rightarrow> RedisBitSet \<Rightarrow> redis \<Rightarrow> bool \<times> redis" where
  "RedisBitSet_Test i r w = (redis_GetBit w (bitsetKey r) (sint i) = 1, w)"

definition RedisBitSet_ClearAll :: "RedisBitSet \<Rightarrow> redis \<Rightarrow> redis" where
  "RedisBitSet_ClearAll r w = redis_Set w (bitsetKey r) [] (expiration r)"

definition RedisBitSet_GetBitSetKey :: "RedisBitSet \<Rightarrow> byte list" where
  "RedisBitSet_GetBitSetKey r = bitsetKey r"

definition RedisBitSet_Equal :: "RedisBitSet \<Rightarrow> RedisBitSet \<Rightarrow> redis \<Rightarrow> bool" where
  "RedisBitSet_Equal c r w \<longleftrightarrow>
     redis_Get w (bitsetKey r) = redis_Get w (RedisBitSet_GetBitSetKey c)"

definition RedisBitSet_From :: "uint64 list \<Rightarrow> RedisBitSet \<Rightarrow> redis \<Rightarrow> redis" where
  "RedisBitSet_From buf r w =
     redis_Set w (bitsetKey r) (concat (map LittleEndian_PutUint64 buf)) (expiration r)"

text \<open>
  \<open>WriteTo\<close>: the length of the key, the key, the expiration, the length of the
  stored string and the string.
\<close>

definition RedisBitSet_WriteTo :: "byte list \<Rightarrow> RedisBitSet \<Rightarrow> redis \<Rightarrow> int \<times> byte list" where
  "RedisBitSet_WriteTo s r w =
     (let s1 = s @ BigEndian_PutUint64 (of_nat (length (bitsetKey r)));
          n = length (bitsetKey r);
          s2 = s1 @ bitsetKey r;
          s3 = s2 @ BigEndian_PutUint64 (expiration r);
          bitsetVal = redis_Get w (bitsetKey r);
          s4 = s3 @ BigEndian_PutUint64 (of_nat (length bitsetVal));
          m = length bitsetVal;
          s5 = s4 @ bitsetVal
      in (int n + int m + 24, s5))"

text \<open>
  \<open>ReadFrom\<close>: the fields \<open>bitsetKey\<close> and \<open>expiration\<close> of the receiver are assigned
  as soon as they are read, and the key and the string are read with one call of
  \<open>stream.Read\<close> each, into a slice that \<open>make\<close> allocates with the length
  announced in the stream; \<open>make\<close> panics when that length is out of range.
\<close>

definition RedisBitSet_ReadFrom ::
  "byte list \<Rightarrow> RedisBitSet \<Rightarrow> redis
     \<Rightarrow> (panic + error + int) \<times> RedisBitSet \<times> redis \<times> byte list" where
  "RedisBitSet_ReadFrom s r w =
     (case binary_Read_uint64 s of
        (Inl err, s1) \<Rightarrow> (Inr (Inl err), r, w, s1)
      | (Inr bitsetKeyLen, s1) \<Rightarrow>
          if \<not> makeslice_ok bitsetKeyLen then (Inl MakesliceLenOutOfRange, r, w, s1)
          else
          (case Buffer_Read s1 (unat bitsetKeyLen) of
             (Inl err, s2) \<Rightarrow> (Inr (Inl err), r, w, s2)
           | (Inr (n, bitsetKeyBytes), s2) \<Rightarrow>
               (let r1 = r\<lparr>bitsetKey := bitsetKeyBytes\<rparr> in
                case binary_Read_uint64 s2 of
                  (Inl err, s3) \<Rightarrow> (Inr (Inl err), r1, w, s3)
                | (Inr expir, s3) \<Rightarrow>
                    (let r2 = r1\<lparr>expiration := expir\<rparr> in
                     case binary_Read_uint64 s3 of
                       (Inl err, s4) \<Rightarrow> (Inr (Inl err), r2, w, s4)
                     | (Inr bitsetValLen, s4) \<Rightarrow>
                         if \<not> makeslice_ok bitsetValLen
                         then (Inl MakesliceLenOutOfRange, r2, w, s4)
                         else
                         (case Buffer_Read s4 (unat bitsetValLen) of
                            (Inl err, s5) \<Rightarrow> (Inr (Inl err), r2, w, s5)
                          | (Inr (m, data), s5) \<Rightarrow>
                              (Inr (Inr (int n + int m + 24)), r2,
                               redis_Set w (bitsetKey r2) data (expiration r2), s5))))))"

text \<open>
  \<open>RedisBitSet\<close> has no exported field and no \<open>MarshalJSON\<close> method, so \<open>json.Marshal\<close>
  writes it as the empty object.
\<close>

definition RedisBitSet_JSON :: "RedisBitSet \<Rightarrow> redis \<Rightarrow> json" where
  "RedisBitSet_JSON r w = JObject []"

text \<open>The method table of \<open>*RedisBitSet\<close>.\<close>

definition RedisBitSet_methods :: "(RedisBitSet, redis) BitSet" where
  "RedisBitSet_methods =
     \<lparr>bsInit = RedisBitSet_Init, bsSet = RedisBitSet_Set, bsUnSet = RedisBitSet_UnSet,
      bsTest = RedisBitSet_Test, bsClearAll = RedisBitSet_ClearAll,
      bsFrom = RedisBitSet_From, bsWriteTo = RedisBitSet_WriteTo,
      bsReadFrom = RedisBitSet_ReadFrom, bsEqual = RedisBitSet_Equal,
      bsGetBitSetKey = RedisBitSet_GetBitSetKey, bsJSON = RedisBitSet_JSON\<rparr>"

section \<open>Observing the calls on a storage\<close>

text \<open>
  Which methods the filter calls on its storage, in which order and with which
  arguments, is read off a storage that records the calls it receives and passes them
  on to a storage underneath. The world of the recording storage is the world
  underneath together with the calls so far.
\<close>

datatype call =
    InitCall uint
  | SetCall uint
  | UnSetCall uint
  | TestCall uint bool
  | ClearAllCall
  | FromCall "uint64 list"

definition recording :: "('h, 'w) BitSet \<Rightarrow> ('h, 'w \<times> call list) BitSet" where
  "recording B =
     \<lparr>bsInit = (\<lambda>n b (w, cs). (bsInit B n b w, cs @ [InitCall n])),
      bsSet = (\<lambda>i b (w, cs). (bsSet B i b w, cs @ [SetCall i])),
      bsUnSet = (\<lambda>i b (w, cs). (bsUnSet B i b w, cs @ [UnSetCall i])),
      bsTest = (\<lambda>i b (w, cs).
                  case bsTest B i b w of (t, w') \<Rightarrow> (t, (w', cs @ [TestCall i t]))),
      bsClearAll = (\<lambda>b (w, cs). (bsClearAll B b w, cs @ [ClearAllCall])),
      bsFrom = (\<lambda>buf b (w, cs). (bsFrom B buf b w, cs @ [FromCall buf])),
      bsWriteTo = (\<lambda>s b (w, cs). bsWriteTo B s b w),
      bsReadFrom = (\<lambda>s b (w, cs).
                      case bsReadFrom B s b w of (res, b', w', s') \<Rightarrow> (res, b', (w', cs), s')),
      bsEqual = (\<lambda>c b (w, cs). bsEqual B c b w),
      bsGetBitSetKey = bsGetBitSetKey B,
      bsJSON = (\<lambda>b (w, cs). bsJSON B b w)\<rparr>"

text \<open>A recorded call that carries a bit index carries one below \<open>m\<close>.\<close>

fun index_below :: "uint \<Rightarrow> call \<Rightarrow> bool" where
  "index_below m (SetCall i) = (i < m)"
| "index_below m (UnSetCall i) = (i < m)"
| "index_below m (TestCall i t) = (i < m)"
| "index_below m c = True"

text \<open>
  The calls of one \<open>TestAndAdd\<close> on the positions \<open>ls\<close>: for each position in turn a
  \<open>Test\<close> and then a \<open>Set\<close>, whatever the test answered. The calls of one \<open>TestOrAdd\<close>:
  for each position in turn a \<open>Test\<close>, followed by a \<open>Set\<close> exactly when the answer
  was false.
\<close>

fun TestAndAdd_calls :: "call list \<Rightarrow> uint list \<Rightarrow> bool" where
  "TestAndAdd_calls [] [] = True"
| "TestAndAdd_calls (TestCall i t # SetCall j # cs) (l # ls) =
     (i = l \<and> j = l \<and> TestAndAdd_calls cs ls)"
| "TestAndAdd_calls cs ls = False"

fun TestOrAdd_calls :: "call list \<Rightarrow> uint list \<Rightarrow> bool" where
  "TestOrAdd_calls [] [] = True"
| "TestOrAdd_calls (TestCall i True # cs) (l # ls) = (i = l \<and> TestOrAdd_calls cs ls)"
| "TestOrAdd_calls (TestCall i False # SetCall j # cs) (l # ls) =
     (i = l \<and> j = l \<and> TestOrAdd_calls cs ls)"
| "TestOrAdd_calls cs ls = False"

section \<open>Positions of a key and the contract of a storage\<close>

text \<open>The values a loop counter takes from \<open>i\<close> up to, and without, the bound \<open>n\<close>.\<close>

definition uint_range :: "'a::len word \<Rightarrow> 'a word \<Rightarrow> 'a word list" where
  "uint_range i n = map of_nat [unat i..<unat n]"

text \<open>The bit positions of a key, in the order of the loops: one for each \<open>i < k\<close>.\<close>

definition locations_from :: "hashing \<Rightarrow> 'h bloomFilterImpl \<Rightarrow> hashes \<Rightarrow> uint \<Rightarrow> uint list" where
  "locations_from H f h i = map (\<lambda>j. location H h j mod f_m f) (uint_range i (f_k f))"

definition locations :: "hashing \<Rightarrow> 'h bloomFilterImpl \<Rightarrow> byte list \<Rightarrow> uint list" where
  "locations H f data = locations_from H f (baseHashes H data) 0"

text \<open>The loops of the filter, run over an explicit list of positions.\<close>

fun Set_list :: "('h, 'w) BitSet \<Rightarrow> 'h \<Rightarrow> uint list \<Rightarrow> 'w \<Rightarrow> 'w" where
  "Set_list B b [] w = w"
| "Set_list B b (l # ls) w = Set_list B b ls (bsSet B l b w)"

fun Test_list :: "('h, 'w) BitSet \<Rightarrow> 'h \<Rightarrow> uint list \<Rightarrow> 'w \<Rightarrow> bool \<times> 'w" where
  "Test_list B b [] w = (True, w)"
| "Test_list B b (l # ls) w =
     (case bsTest B l b w of (t, w') \<Rightarrow> if \<not> t then (False, w') else Test_list B b ls w')"

fun TestAndAdd_list :: "('h, 'w) BitSet \<Rightarrow> 'h \<Rightarrow> uint list \<Rightarrow> bool \<Rightarrow> 'w \<Rightarrow> bool \<times> 'w" where
  "TestAndAdd_list B b [] present w = (present, w)"
| "TestAndAdd_list B b (l # ls) present w =
     (case bsTest B l b w of
        (t, w') \<Rightarrow> TestAndAdd_list B b ls (if \<not> t then False else present) (bsSet B l b w'))"

fun TestOrAdd_list :: "('h, 'w) BitSet \<Rightarrow> 'h \<Rightarrow> uint list \<Rightarrow> bool \<Rightarrow> 'w \<Rightarrow> bool \<times> 'w" where
  "TestOrAdd_list B b [] present w = (present, w)"
| "TestOrAdd_list B b (l # ls) present w =
     (case bsTest B l b w of
        (t, w') \<Rightarrow> if \<not> t then TestOrAdd_list B b ls False (bsSet B l b w')
                  else TestOrAdd_list B b ls present w')"






section \<open>Examples\<close>

text \<open>
  A handle, an empty store, a pair of hash functions and a filter of eight bits with
  two positions per key, for the concrete instances below.
\<close>

definition example_handle :: RedisBitSet where
  "example_handle = \<lparr>bitsetKey = [102, 49], expiration = 60000000000\<rparr>"

definition empty_store :: redis where
  "empty_store = (\<lambda>key. [])"

definition example_hashing :: hashing where
  "example_hashing =
     \<lparr>baseHashes = (\<lambda>data. (of_nat (length data), 3, 5, 7)),
      location = (\<lambda>(h0, h1, h2, h3) i. h0 + i * h1)\<rparr>"

definition example_filter :: "RedisBitSet bloomFilterImpl" where
  "example_filter = \<lparr>f_m = 8, f_k = 2, f_b = example_handle\<rparr>"

text \<open>A store in which the first bit under the key of the handle is set.\<close>

definition example_store :: redis where
  "example_store = empty_store(bitsetKey example_handle := [128])"




section \<open>The loops and the positions of a key\<close>

declare Add_loop.simps [simp del] Test_loop.simps [simp del]
  TestAndAdd_loop.simps [simp del] TestOrAdd_loop.simps [simp del]
  EstimateFalsePositiveRate_populate.simps [simp del]
  EstimateFalsePositiveRate_probe.simps [simp del]

lemma uint_range_step: "i < n \<Longrightarrow> uint_range i n = i # uint_range (i + 1) n"
  by (simp add: uint_range_def unat_succ_less word_less_nat_alt upt_conv_Cons)

lemma uint_range_done: "\<not> i < n \<Longrightarrow> uint_range i n = []"
  by (simp add: uint_range_def word_less_nat_alt)

lemma locations_from_step:
  "i < f_k f \<Longrightarrow>
   locations_from H f h i = (location H h i mod f_m f) # locations_from H f h (i + 1)"
  by (simp add: locations_from_def uint_range_step)

lemma locations_from_done: "\<not> i < f_k f \<Longrightarrow> locations_from H f h i = []"
  by (simp add: locations_from_def uint_range_done)

lemma locations_from_bound: "f_m f \<noteq> 0 \<Longrightarrow> \<forall>l\<in>set (locations_from H f h i). l < f_m f"
  by (simp add: locations_from_def word_mod_less_divisor word_neq_0_conv)

lemma locations_bound: "f_m f \<noteq> 0 \<Longrightarrow> \<forall>l\<in>set (locations H f data). l < f_m f"
  by (simp add: locations_def locations_from_bound)

lemma Add_loop_list:
  "f_m f \<noteq> 0 \<Longrightarrow> Add_loop B H f h i w = Inr (Set_list B (f_b f) (locations_from H f h i) w)"
proof (induction B H f h i w rule: Add_loop.induct)
  case (1 B H f h i w)
  show ?case
  proof (cases "i < f_k f")
    case True
    with "1" show ?thesis
      by (subst Add_loop.simps) (simp add: bloomFilterImpl_location_def locations_from_step)
  next
    case False
    then show ?thesis by (subst Add_loop.simps) (simp add: locations_from_done)
  qed
qed

lemma Test_loop_list:
  "f_m f \<noteq> 0 \<Longrightarrow> Test_loop B H f h i w = Inr (Test_list B (f_b f) (locations_from H f h i) w)"
proof (induction B H f h i w rule: Test_loop.induct)
  case (1 B H f h i w)
  show ?case
  proof (cases "i < f_k f")
    case True
    with "1" show ?thesis
      by (subst Test_loop.simps) (simp add: bloomFilterImpl_location_def locations_from_step split: prod.splits)
  next
    case False
    then show ?thesis by (subst Test_loop.simps) (simp add: locations_from_done)
  qed
qed

lemma TestAndAdd_loop_list:
  "f_m f \<noteq> 0 \<Longrightarrow>
   TestAndAdd_loop B H f h i p w = Inr (TestAndAdd_list B (f_b f) (locations_from H f h i) p w)"
proof (induction B H f h i p w rule: TestAndAdd_loop.induct)
  case (1 B H f h i p w)
  show ?case
  proof (cases "i < f_k f")
    case True
    with "1" show ?thesis
      by (subst TestAndAdd_loop.simps) (simp add: bloomFilterImpl_location_def locations_from_step split: prod.splits)
  next
    case False
    then show ?thesis by (subst TestAndAdd_loop.simps) (simp add: locations_from_done)
  qed
qed

lemma TestOrAdd_loop_list:
  "f_m f \<noteq> 0 \<Longrightarrow>
   TestOrAdd_loop B H f h i p w = Inr (TestOrAdd_list B (f_b f) (locations_from H f h i) p w)"
proof (induction B H f h i p w rule: TestOrAdd_loop.induct)
  case (1 B H f h i p w)
  show ?case
  proof (cases "i < f_k f")
    case True
    with "1" show ?thesis
      by (subst TestOrAdd_loop.simps) (simp add: bloomFilterImpl_location_def locations_from_step split: prod.splits)
  next
    case False
    then show ?thesis by (subst TestOrAdd_loop.simps) (simp add: locations_from_done)
  qed
qed

lemma Add_list: "f_m f \<noteq> 0 \<Longrightarrow> Add B H f x w = Inr (Set_list B (f_b f) (locations H f x) w)"
  by (simp add: Add_def locations_def Add_loop_list)

lemma Test_eq_list: "f_m f \<noteq> 0 \<Longrightarrow> Test B H f x w = Inr (Test_list B (f_b f) (locations H f x) w)"
  by (simp add: Test_def locations_def Test_loop_list)

lemma TestAndAdd_eq_list:
  "f_m f \<noteq> 0 \<Longrightarrow>
   TestAndAdd B H f x w = Inr (TestAndAdd_list B (f_b f) (locations H f x) True w)"
  by (simp add: TestAndAdd_def locations_def TestAndAdd_loop_list)

lemma TestOrAdd_eq_list:
  "f_m f \<noteq> 0 \<Longrightarrow>
   TestOrAdd B H f x w = Inr (TestOrAdd_list B (f_b f) (locations H f x) True w)"
  by (simp add: TestOrAdd_def locations_def TestOrAdd_loop_list)

lemma TestLocations_list:
  "f_m f \<noteq> 0 \<Longrightarrow>
   TestLocations B f locs w = Inr (Test_list B (f_b f) (map (\<lambda>l. l mod f_m f) locs) w)"
  by (induction locs arbitrary: w) (auto split: prod.splits)

section \<open>Consequences of the contract\<close>










section \<open>The Redis backend keeps the contract\<close>


















section \<open>What the recording storage records\<close>

lemma recording_Set [simp]:
  "bsSet (recording B) i b (w, cs) = (bsSet B i b w, cs @ [SetCall i])"
  by (simp add: recording_def)

lemma recording_Test [simp]:
  "bsTest (recording B) i b (w, cs) =
     (fst (bsTest B i b w), snd (bsTest B i b w), cs @ [TestCall i (fst (bsTest B i b w))])"
  by (simp add: recording_def split: prod.splits)

lemma recording_Init [simp]:
  "bsInit (recording B) n b (w, cs) = (bsInit B n b w, cs @ [InitCall n])"
  by (simp add: recording_def)

lemma Set_list_recording:
  "Set_list (recording B) b ls (w, cs) = (Set_list B b ls w, cs @ map SetCall ls)"
  by (induction ls arbitrary: w cs) simp_all

lemma Test_list_recording:
  "\<forall>l\<in>set ls. l < m \<Longrightarrow>
   \<exists>cs'. Test_list (recording B) b ls (w, cs) =
            (fst (Test_list B b ls w), snd (Test_list B b ls w), cs @ cs') \<and>
          (\<forall>c\<in>set cs'. index_below m c)"
proof (induction ls arbitrary: w cs)
  case Nil
  then show ?case by simp
next
  case (Cons l ls)
  obtain t w' where tw: "bsTest B l b w = (t, w')" by (cases "bsTest B l b w")
  show ?case
  proof (cases t)
    case False
    with tw Cons.prems show ?thesis by simp
  next
    case True
    from Cons.prems have "\<forall>l\<in>set ls. l < m" by simp
    from Cons.IH [OF this, of w' "cs @ [TestCall l True]"] obtain cs' where
      "Test_list (recording B) b ls (w', cs @ [TestCall l True]) =
         (fst (Test_list B b ls w'), snd (Test_list B b ls w'), (cs @ [TestCall l True]) @ cs')"
      "\<forall>c\<in>set cs'. index_below m c"
      by blast
    with tw True Cons.prems show ?thesis
      by (intro exI [of _ "TestCall l True # cs'"]) simp
  qed
qed

lemma TestAndAdd_list_recording:
  "\<exists>cs'. TestAndAdd_list (recording B) b ls p (w, cs) =
            (fst (TestAndAdd_list B b ls p w), snd (TestAndAdd_list B b ls p w), cs @ cs') \<and>
          TestAndAdd_calls cs' ls"
proof (induction ls arbitrary: w cs p)
  case Nil
  then show ?case by simp
next
  case (Cons l ls)
  obtain t w' where tw: "bsTest B l b w = (t, w')" by (cases "bsTest B l b w")
  let ?p = "if \<not> t then False else p"
  let ?cs = "cs @ [TestCall l t, SetCall l]"
  from Cons.IH [of ?p "bsSet B l b w'" ?cs] obtain cs' where
    "TestAndAdd_list (recording B) b ls ?p (bsSet B l b w', ?cs) =
       (fst (TestAndAdd_list B b ls ?p (bsSet B l b w')),
        snd (TestAndAdd_list B b ls ?p (bsSet B l b w')), ?cs @ cs')"
    "TestAndAdd_calls cs' ls"
    by blast
  with tw show ?case
    by (intro exI [of _ "TestCall l t # SetCall l # cs'"]) simp
qed

lemma TestOrAdd_list_recording:
  "\<exists>cs'. TestOrAdd_list (recording B) b ls p (w, cs) =
            (fst (TestOrAdd_list B b ls p w), snd (TestOrAdd_list B b ls p w), cs @ cs') \<and>
          TestOrAdd_calls cs' ls"
proof (induction ls arbitrary: w cs p)
  case Nil
  then show ?case by simp
next
  case (Cons l ls)
  obtain t w' where tw: "bsTest B l b w = (t, w')" by (cases "bsTest B l b w")
  show ?case
  proof (cases t)
    case True
    from Cons.IH [of p w' "cs @ [TestCall l True]"] obtain cs' where
      "TestOrAdd_list (recording B) b ls p (w', cs @ [TestCall l True]) =
         (fst (TestOrAdd_list B b ls p w'), snd (TestOrAdd_list B b ls p w'),
          (cs @ [TestCall l True]) @ cs')"
      "TestOrAdd_calls cs' ls"
      by blast
    with tw True show ?thesis
      by (intro exI [of _ "TestCall l True # cs'"]) simp
  next
    case False
    let ?cs = "cs @ [TestCall l False, SetCall l]"
    from Cons.IH [of False "bsSet B l b w'" ?cs] obtain cs' where
      "TestOrAdd_list (recording B) b ls False (bsSet B l b w', ?cs) =
         (fst (TestOrAdd_list B b ls False (bsSet B l b w')),
          snd (TestOrAdd_list B b ls False (bsSet B l b w')), ?cs @ cs')"
      "TestOrAdd_calls cs' ls"
      by blast
    with tw False show ?thesis
      by (intro exI [of _ "TestCall l False # SetCall l # cs'"]) simp
  qed
qed

lemma TestAndAdd_calls_below:
  "TestAndAdd_calls cs ls \<Longrightarrow> \<forall>l\<in>set ls. l < m \<Longrightarrow> \<forall>c\<in>set cs. index_below m c"
  by (induction cs ls rule: TestAndAdd_calls.induct) auto

lemma TestOrAdd_calls_below:
  "TestOrAdd_calls cs ls \<Longrightarrow> \<forall>l\<in>set ls. l < m \<Longrightarrow> \<forall>c\<in>set cs. index_below m c"
  by (induction cs ls rule: TestOrAdd_calls.induct) auto

lemma mod_below: "(m :: uint) \<noteq> 0 \<Longrightarrow> \<forall>l\<in>set (map (\<lambda>l. l mod m) locs). l < m"
  by (simp add: word_mod_less_divisor word_neq_0_conv)


section \<open>A filter without bits or without positions\<close>

lemma Add_zero_m: "f_m f = 0 \<Longrightarrow> f_k f \<noteq> 0 \<Longrightarrow> Add B H f x w = Inl DivideByZero"
  by (simp add: Add_def Add_loop.simps [of _ _ _ _ 0] bloomFilterImpl_location_def
      word_neq_0_conv)

lemma Test_zero_m: "f_m f = 0 \<Longrightarrow> f_k f \<noteq> 0 \<Longrightarrow> Test B H f x w = Inl DivideByZero"
  by (simp add: Test_def Test_loop.simps [of _ _ _ _ 0] bloomFilterImpl_location_def
      word_neq_0_conv)

lemma TestAndAdd_zero_m:
  "f_m f = 0 \<Longrightarrow> f_k f \<noteq> 0 \<Longrightarrow> TestAndAdd B H f x w = Inl DivideByZero"
  by (simp add: TestAndAdd_def TestAndAdd_loop.simps [of _ _ _ _ 0]
      bloomFilterImpl_location_def word_neq_0_conv)

lemma TestOrAdd_zero_m:
  "f_m f = 0 \<Longrightarrow> f_k f \<noteq> 0 \<Longrightarrow> TestOrAdd B H f x w = Inl DivideByZero"
  by (simp add: TestOrAdd_def TestOrAdd_loop.simps [of _ _ _ _ 0]
      bloomFilterImpl_location_def word_neq_0_conv)

lemma zero_k:
  "f_k f = 0 \<Longrightarrow>
   Add B H f x w = Inr w \<and> Test B H f x w = Inr (True, w) \<and>
   TestAndAdd B H f x w = Inr (True, w) \<and> TestOrAdd B H f x w = Inr (True, w)"
  by (simp add: Add_def Add_loop.simps [of _ _ _ _ 0] Test_def Test_loop.simps [of _ _ _ _ 0]
      TestAndAdd_def TestAndAdd_loop.simps [of _ _ _ _ 0]
      TestOrAdd_def TestOrAdd_loop.simps [of _ _ _ _ 0])

section \<open>The loops of EstimateFalsePositiveRate\<close>










section \<open>Byte order, streams and the Redis payload\<close>

lemma BigEndian_Uint64_PutUint64: "BigEndian_Uint64 (BigEndian_PutUint64 v) = v"
proof (rule bit_word_eqI)
  fix n :: nat
  assume n: "n < LENGTH(64)"
  then have "n < 64" by simp
  then consider "n < 8" | "8 \<le> n \<and> n < 16" | "16 \<le> n \<and> n < 24" | "24 \<le> n \<and> n < 32"
    | "32 \<le> n \<and> n < 40" | "40 \<le> n \<and> n < 48" | "48 \<le> n \<and> n < 56" | "56 \<le> n \<and> n < 64"
    by linarith
  then show "bit (BigEndian_Uint64 (BigEndian_PutUint64 v)) n = bit v n"
    by cases (auto simp: BigEndian_Uint64_def BigEndian_PutUint64_def bit_simps)
qed

lemma length_BigEndian_PutUint64 [simp]: "length (BigEndian_PutUint64 v) = 8"
  by (simp add: BigEndian_PutUint64_def)

lemma BigEndian_PutUint64_not_Nil [simp]: "BigEndian_PutUint64 v \<noteq> []"
  by (simp add: BigEndian_PutUint64_def)

lemma binary_Read_uint64_PutUint64:
  "binary_Read_uint64 (BigEndian_PutUint64 v @ s) = (Inr v, s)"
  by (simp add: binary_Read_uint64_def BigEndian_Uint64_PutUint64)

lemma binary_Read_uint64_short:
  "length s < 8 \<Longrightarrow> binary_Read_uint64 s = (Inl (if s = [] then EOF else ErrUnexpectedEOF), [])"
  by (simp add: binary_Read_uint64_def)

lemma Buffer_Read_exact: "Buffer_Read (xs @ s) (length xs) = (Inr (length xs, xs), s)"
  by (simp add: Buffer_Read_def)


lemma unat_of_nat_length: "n < 2 ^ 64 \<Longrightarrow> unat (of_nat n :: uint64) = n"
  by (simp add: unat_of_nat)

lemma maxAlloc_less: "n \<le> maxAlloc \<Longrightarrow> n < 2 ^ 64"
  by (simp add: maxAlloc_def)

lemma unat_of_nat_maxAlloc: "n \<le> maxAlloc \<Longrightarrow> unat (of_nat n :: uint64) = n"
  by (rule unat_of_nat_length) (rule maxAlloc_less)

lemma makeslice_ok_length: "n \<le> maxAlloc \<Longrightarrow> makeslice_ok (of_nat n)"
  by (simp add: makeslice_ok_def unat_of_nat_maxAlloc)

text \<open>A length above \<open>maxAlloc\<close> announced in the stream ends \<open>ReadFrom\<close> in a panic.\<close>

lemma RedisBitSet_ReadFrom_makeslice_panic:
  "RedisBitSet_ReadFrom (BigEndian_PutUint64 (2 ^ 48 + 1) @ [1, 2, 3]) example_handle
     example_store =
     (Inl MakesliceLenOutOfRange, example_handle, example_store, [1, 2, 3])"
  by (simp add: RedisBitSet_ReadFrom_def binary_Read_uint64_PutUint64 makeslice_ok_def
      maxAlloc_def)

lemma RedisBitSet_round_trip:
  assumes "length (bitsetKey r) \<le> maxAlloc" and "length (w (bitsetKey r)) \<le> maxAlloc"
  shows "RedisBitSet_ReadFrom (snd (RedisBitSet_WriteTo [] r w) @ rest) g w =
           (Inr (Inr (fst (RedisBitSet_WriteTo [] r w))), r, w, rest)"
  using assms
  by (simp add: RedisBitSet_ReadFrom_def RedisBitSet_WriteTo_def Let_def
      binary_Read_uint64_PutUint64 Buffer_Read_exact unat_of_nat_maxAlloc redis_Get_def
      redis_Set_def makeslice_ok_length)


lemma RedisBitSet_methods_sel:
  "bsInit RedisBitSet_methods = RedisBitSet_Init"
  "bsSet RedisBitSet_methods = RedisBitSet_Set"
  "bsUnSet RedisBitSet_methods = RedisBitSet_UnSet"
  "bsTest RedisBitSet_methods = RedisBitSet_Test"
  "bsClearAll RedisBitSet_methods = RedisBitSet_ClearAll"
  "bsFrom RedisBitSet_methods = RedisBitSet_From"
  "bsWriteTo RedisBitSet_methods = RedisBitSet_WriteTo"
  "bsReadFrom RedisBitSet_methods = RedisBitSet_ReadFrom"
  "bsEqual RedisBitSet_methods = RedisBitSet_Equal"
  "bsGetBitSetKey RedisBitSet_methods = RedisBitSet_GetBitSetKey"
  "bsJSON RedisBitSet_methods = RedisBitSet_JSON"
  by (simp_all add: RedisBitSet_methods_def)

lemma WriteTo_RedisBitSet:
  "WriteTo RedisBitSet_methods [] f w =
     (fst (RedisBitSet_WriteTo [] (f_b f) w) + 16,
      BigEndian_PutUint64 (f_m f) @ BigEndian_PutUint64 (f_k f) @
      snd (RedisBitSet_WriteTo [] (f_b f) w))"
  by (simp add: WriteTo_def RedisBitSet_methods_def RedisBitSet_WriteTo_def Let_def)

lemma binary_round_trip:
  assumes "length (bitsetKey (f_b f)) \<le> maxAlloc"
    and "length (w (bitsetKey (f_b f))) \<le> maxAlloc"
  shows "ReadFrom RedisBitSet_methods (snd (WriteTo RedisBitSet_methods [] f w)) g w =
           (Inr (Inr (fst (WriteTo RedisBitSet_methods [] f w))), f, w, []) \<and>
         Equal RedisBitSet_methods f f w"
proof -
  have "bsReadFrom RedisBitSet_methods (snd (RedisBitSet_WriteTo [] (f_b f) w)) (f_b g) w =
          (Inr (Inr (fst (RedisBitSet_WriteTo [] (f_b f) w))), f_b f, w, [])"
    using RedisBitSet_round_trip [of "f_b f" w "[]" "f_b g", OF assms]
    by (simp add: RedisBitSet_methods_sel)
  then show ?thesis
    by (simp add: ReadFrom_def WriteTo_RedisBitSet binary_Read_uint64_PutUint64 Equal_def
        Cap_def K_def RedisBitSet_methods_sel RedisBitSet_Equal_def
        RedisBitSet_GetBitSetKey_def)
qed

lemma binary_round_trip_example:
  "length (bitsetKey (f_b example_filter)) \<le> maxAlloc \<and>
   length (empty_store (bitsetKey (f_b example_filter))) \<le> maxAlloc \<and>
   ReadFrom RedisBitSet_methods (snd (WriteTo RedisBitSet_methods [] example_filter empty_store))
     \<lparr>f_m = 1, f_k = 1, f_b = \<lparr>bitsetKey = [103], expiration = 0\<rparr>\<rparr> empty_store =
     (Inr (Inr (fst (WriteTo RedisBitSet_methods [] example_filter empty_store))),
      example_filter, empty_store, [])"
proof -
  have a: "length (bitsetKey (f_b example_filter)) \<le> maxAlloc"
    and b: "length (empty_store (bitsetKey (f_b example_filter))) \<le> maxAlloc"
    by (simp_all add: example_filter_def example_handle_def empty_store_def maxAlloc_def)
  show ?thesis
    using a b
      binary_round_trip [of example_filter empty_store
        "\<lparr>f_m = 1, f_k = 1, f_b = \<lparr>bitsetKey = [103], expiration = 0\<rparr>\<rparr>", OF a b]
    by blast
qed

section \<open>What json.Unmarshal can decode\<close>


lemma uint_below_2p64: "uint (v :: uint) < 18446744073709551616"
  using uint_lt2p [of v] by simp

lemma decode_uint_of_uint: "decode_uint (JNumber (uint (v :: uint))) cur = Inr v"
  by (simp add: uint_below_2p64)

lemma decode_member_storage:
  "\<exists>err' jM' jK'.
     decode_member member (err, jM, jK, (None :: 'h option)) =
       (err', jM', jK', (None :: 'h option))"
proof -
  obtain name v where member: "member = (name, v)" by (cases member)
  show ?thesis
    unfolding member decode_member_def
    by (cases v) (auto split: sum.splits)
qed

lemma decode_members_storage:
  "snd (snd (snd (decode_members ms (err, jM, jK, (None :: 'h option))))) = None"
proof (induction ms arbitrary: err jM jK)
  case Nil
  then show ?case by simp
next
  case (Cons member ms)
  from decode_member_storage [of member err jM jK] obtain err' jM' jK' where
    "decode_member member (err, jM, jK, (None :: 'h option)) = (err', jM', jK', None)"
    by blast
  with Cons.IH [of err' jM' jK'] show ?case by simp
qed

lemma json_Unmarshal_storage: "snd (snd (snd (json_Unmarshal data :: _ \<times> _ \<times> _ \<times> 'h option))) = None"
  by (cases data) (simp_all add: decode_members_storage)

lemma UnmarshalJSON_nil:
  assumes "UnmarshalJSON data = Inr (g :: 'h option bloomFilterImpl)"
  shows "f_b g = None"
proof -
  obtain err jM jK jB where d: "(json_Unmarshal data :: _ \<times> _ \<times> _ \<times> 'h option) = (err, jM, jK, jB)"
    by (cases "json_Unmarshal data :: _ \<times> _ \<times> _ \<times> 'h option") auto
  with json_Unmarshal_storage [of data, where ?'h = 'h] have "jB = None" by simp
  with assms d show ?thesis
    by (cases err) (auto simp: UnmarshalJSON_def)
qed

section \<open>The examples, evaluated\<close>

lemma max_uint_1: "max_uint 1 m = (if m = 0 then 1 else m)"
  unfolding max_uint_def by (cases "m = 0") (simp_all, unat_arith)

lemma max_uint_1_ge: "1 \<le> max_uint 1 m"
  unfolding max_uint_def by (simp add: less_imp_le)

lemma Init_example:
  "bsInit RedisBitSet_methods 0 example_handle example_store =
     empty_store(bitsetKey example_handle := [0]) \<and>
   bsInit RedisBitSet_methods 1 example_handle example_store = example_store"
  by (auto simp: RedisBitSet_methods_sel RedisBitSet_Init_def RedisBitSet_UnSet_def
      redis_SetBit_def redis_offset_ok_def bytes_setbit_def example_store_def
      example_handle_def empty_store_def fun_eq_iff)






section \<open>No false negatives\<close>




section \<open>TestAndAdd and TestOrAdd\<close>




section \<open>Indices stay below \<open>m\<close>\<close>

text \<open>
  Claim C5. For a filter with \<open>m \<ge> 1\<close> and any storage: \<open>Add\<close>, \<open>Test\<close>, \<open>TestAndAdd\<close>,
  \<open>TestOrAdd\<close> and \<open>TestLocations\<close> return without a panic, and on a storage that
  records its calls (and otherwise behaves as the storage underneath, so that the call
  returns what it returns there) every index passed to \<open>Set\<close> or \<open>Test\<close> during the
  call is strictly below \<open>m\<close>.
\<close>

theorem indices_in_range:
  assumes "1 \<le> f_m f"
  shows
    "(\<exists>w' cs. Add (recording B) H f x (w, []) = Inr (w', cs) \<and> Add B H f x w = Inr w' \<and>
        (\<forall>c\<in>set cs. index_below (f_m f) c)) \<and>
     (\<exists>r cs. Test (recording B) H f x (w, []) = Inr (fst r, snd r, cs) \<and>
        Test B H f x w = Inr r \<and> (\<forall>c\<in>set cs. index_below (f_m f) c)) \<and>
     (\<exists>r cs. TestAndAdd (recording B) H f x (w, []) = Inr (fst r, snd r, cs) \<and>
        TestAndAdd B H f x w = Inr r \<and> (\<forall>c\<in>set cs. index_below (f_m f) c)) \<and>
     (\<exists>r cs. TestOrAdd (recording B) H f x (w, []) = Inr (fst r, snd r, cs) \<and>
        TestOrAdd B H f x w = Inr r \<and> (\<forall>c\<in>set cs. index_below (f_m f) c)) \<and>
     (\<exists>r cs. TestLocations (recording B) f locs (w, []) = Inr (fst r, snd r, cs) \<and>
        TestLocations B f locs w = Inr r \<and> (\<forall>c\<in>set cs. index_below (f_m f) c))"
proof -
  from assms have m: "f_m f \<noteq> 0" by auto
  note lb = locations_bound [OF m, of H x]
  have "\<forall>c\<in>set (map SetCall (locations H f x)). index_below (f_m f) c"
    using lb by simp
  then have a: "\<exists>w' cs. Add (recording B) H f x (w, []) = Inr (w', cs) \<and>
      Add B H f x w = Inr w' \<and> (\<forall>c\<in>set cs. index_below (f_m f) c)"
    using m by (simp add: Add_list Set_list_recording)
  have b: "\<exists>r cs. Test (recording B) H f x (w, []) = Inr (fst r, snd r, cs) \<and>
      Test B H f x w = Inr r \<and> (\<forall>c\<in>set cs. index_below (f_m f) c)"
    using m Test_list_recording [OF lb, of B "f_b f" w "[]"]
    by (auto simp: Test_eq_list)
  have c: "\<exists>r cs. TestAndAdd (recording B) H f x (w, []) = Inr (fst r, snd r, cs) \<and>
      TestAndAdd B H f x w = Inr r \<and> (\<forall>c\<in>set cs. index_below (f_m f) c)"
    using m TestAndAdd_list_recording [of B "f_b f" "locations H f x" True w "[]"]
      TestAndAdd_calls_below [OF _ lb]
    by (auto simp: TestAndAdd_eq_list)
  have d: "\<exists>r cs. TestOrAdd (recording B) H f x (w, []) = Inr (fst r, snd r, cs) \<and>
      TestOrAdd B H f x w = Inr r \<and> (\<forall>c\<in>set cs. index_below (f_m f) c)"
    using m TestOrAdd_list_recording [of B "f_b f" "locations H f x" True w "[]"]
      TestOrAdd_calls_below [OF _ lb]
    by (auto simp: TestOrAdd_eq_list)
  have e: "\<exists>r cs. TestLocations (recording B) f locs (w, []) = Inr (fst r, snd r, cs) \<and>
      TestLocations B f locs w = Inr r \<and> (\<forall>c\<in>set cs. index_below (f_m f) c)"
    using m Test_list_recording [OF mod_below [OF m, of locs], of B "f_b f" w "[]"]
    by (auto simp: TestLocations_list)
  from a b c d e show ?thesis by blast
qed

theorem indices_in_range_witness:
  "1 \<le> f_m example_filter \<and>
   (\<exists>w' cs.
      Add (recording RedisBitSet_methods) example_hashing example_filter [1, 2, 3]
        (empty_store, []) = Inr (w', cs) \<and>
      list_all (index_below (f_m example_filter)) cs) \<and>
   (\<exists>r cs.
      Test (recording RedisBitSet_methods) example_hashing example_filter [1, 2, 3]
        (empty_store, []) = Inr (fst r, snd r, cs) \<and>
      list_all (index_below (f_m example_filter)) cs) \<and>
   (\<exists>r cs.
      TestAndAdd (recording RedisBitSet_methods) example_hashing example_filter [1, 2, 3]
        (empty_store, []) = Inr (fst r, snd r, cs) \<and>
      list_all (index_below (f_m example_filter)) cs) \<and>
   (\<exists>r cs.
      TestOrAdd (recording RedisBitSet_methods) example_hashing example_filter [1, 2, 3]
        (empty_store, []) = Inr (fst r, snd r, cs) \<and>
      list_all (index_below (f_m example_filter)) cs) \<and>
   (\<exists>r cs.
      TestLocations (recording RedisBitSet_methods) example_filter [17, 42]
        (empty_store, []) = Inr (fst r, snd r, cs) \<and>
      list_all (index_below (f_m example_filter)) cs)"
proof -
  have m: "1 \<le> f_m example_filter"
    by (simp add: example_filter_def)
  show ?thesis
    unfolding list_all_iff
    using m
      indices_in_range [OF m, of RedisBitSet_methods example_hashing "[1, 2, 3]" empty_store
        "[17, 42]"]
    by blast
qed

section \<open>The constructor New\<close>

text \<open>
  Claim C4, as the code has it. For every \<open>m\<close>, \<open>k\<close> and storage, \<open>New(m, k, storage)\<close>
  returns a filter whose fields \<open>m\<close> and \<open>k\<close> are the given values clamped below at 1
  (\<open>New(0, 0, storage)\<close> yields \<open>m = 1\<close> and \<open>k = 1\<close>; the model of \<open>New\<close> is total),
  and whose storage is the given one after one call of \<open>Init\<close>. The argument of that
  call is \<open>m\<close> as given, not the clamped value the filter stores: the first theorem
  proves this, and the second shows \<open>New(0, 0, storage)\<close> calling \<open>Init(0)\<close> while the
  filter stores \<open>m = 1\<close>; on a Redis key whose first bit is set, \<open>Init(0)\<close> clears that
  bit and \<open>Init(1)\<close> would not.
\<close>

theorem New_clamps:
  "f_m (fst (New B m k b w)) = (if m = 0 then 1 else m) \<and>
   f_k (fst (New B m k b w)) = (if k = 0 then 1 else k) \<and>
   1 \<le> f_m (fst (New B m k b w)) \<and> 1 \<le> f_k (fst (New B m k b w)) \<and>
   f_b (fst (New B m k b w)) = b \<and>
   f_m (fst (New B 0 0 b w)) = 1 \<and> f_k (fst (New B 0 0 b w)) = 1 \<and>
   snd (New B m k b w) = bsInit B m b w \<and>
   snd (New (recording B) m k b (w, [])) = (bsInit B m b w, [InitCall m])"
  using max_uint_1_ge [of m] max_uint_1_ge [of k]
  by (simp add: New_def max_uint_1)

theorem New_Init_argument_counterexample:
  "f_m (fst (New (recording RedisBitSet_methods) 0 0 example_handle (example_store, []))) = 1 \<and>
   snd (snd (New (recording RedisBitSet_methods) 0 0 example_handle (example_store, []))) =
     [InitCall 0] \<and>
   snd (New RedisBitSet_methods 0 0 example_handle example_store) =
     bsInit RedisBitSet_methods 0 example_handle example_store \<and>
   snd (New RedisBitSet_methods 0 0 example_handle example_store) \<noteq>
     bsInit RedisBitSet_methods
       (f_m (fst (New RedisBitSet_methods 0 0 example_handle example_store)))
       example_handle example_store"
proof -
  have "empty_store(bitsetKey example_handle := [0 :: byte]) \<noteq> example_store"
    by (simp add: example_store_def fun_eq_iff)
  then show ?thesis
    using Init_example by (simp add: New_def max_uint_1)
qed

section \<open>The constructors From and FromWithM\<close>

text \<open>
  Claim C10, as the code has it. \<open>From\<close> and \<open>FromWithM\<close> clamp nothing:
  \<open>From(data, k, storage)\<close> yields \<open>m = len(data) * 64\<close> and \<open>k\<close> as given, so \<open>m = 0\<close>
  for the empty slice. On that filter \<open>Add\<close>, \<open>Test\<close>, \<open>TestAndAdd\<close> and \<open>TestOrAdd\<close>
  panic with a division by zero when \<open>k\<close> is not 0, and \<open>TestLocations\<close> does when
  its slice is not empty. With \<open>k = 0\<close>, or with an empty slice of locations, no
  location is reduced and the calls return: the first theorem proves both, the third
  shows \<open>Add\<close> and \<open>Test\<close> returning on the filter \<open>From([], 0, storage)\<close>.
\<close>

theorem From_no_clamping:
  "fst (FromWithM B data m k b w) = \<lparr>f_m = m, f_k = k, f_b = b\<rparr> \<and>
   fst (From B data k b w) = \<lparr>f_m = of_nat (length data) * 64, f_k = k, f_b = b\<rparr> \<and>
   f_m (fst (From B [] k b w)) = 0 \<and>
   (k \<noteq> 0 \<longrightarrow>
      Add B H (fst (From B [] k b w)) x w' = Inl DivideByZero \<and>
      Test B H (fst (From B [] k b w)) x w' = Inl DivideByZero \<and>
      TestAndAdd B H (fst (From B [] k b w)) x w' = Inl DivideByZero \<and>
      TestOrAdd B H (fst (From B [] k b w)) x w' = Inl DivideByZero) \<and>
   (locs \<noteq> [] \<longrightarrow>
      TestLocations B (fst (From B [] k b w)) locs w' = Inl DivideByZero) \<and>
   (k = 0 \<longrightarrow>
      Add B H (fst (From B [] k b w)) x w' = Inr w' \<and>
      Test B H (fst (From B [] k b w)) x w' = Inr (True, w') \<and>
      TestAndAdd B H (fst (From B [] k b w)) x w' = Inr (True, w') \<and>
      TestOrAdd B H (fst (From B [] k b w)) x w' = Inr (True, w')) \<and>
   TestLocations B (fst (From B [] k b w)) [] w' = Inr (True, w')"
proof -
  let ?f = "fst (From B [] k b w)"
  have f: "?f = \<lparr>f_m = 0, f_k = k, f_b = b\<rparr>" by (simp add: From_def FromWithM_def)
  have m: "f_m ?f = 0" and k: "f_k ?f = k" by (simp_all add: f)
  have "locs \<noteq> [] \<longrightarrow> TestLocations B ?f locs w' = Inl DivideByZero"
    using m by (cases locs) simp_all
  then show ?thesis
    using m k Add_zero_m [OF m, of B H x w'] Test_zero_m [OF m, of B H x w']
      TestAndAdd_zero_m [OF m, of B H x w'] TestOrAdd_zero_m [OF m, of B H x w']
      zero_k [of ?f B H x w']
    by (simp add: From_def FromWithM_def)
qed

theorem From_no_clamping_witness:
  "(2 :: uint) \<noteq> 0 \<and> [5 :: uint64] \<noteq> [] \<and>
   Add RedisBitSet_methods example_hashing
     (fst (From RedisBitSet_methods [] 2 example_handle empty_store)) [1, 2, 3] empty_store =
     Inl DivideByZero \<and>
   Test RedisBitSet_methods example_hashing
     (fst (From RedisBitSet_methods [] 2 example_handle empty_store)) [1, 2, 3] empty_store =
     Inl DivideByZero \<and>
   TestAndAdd RedisBitSet_methods example_hashing
     (fst (From RedisBitSet_methods [] 2 example_handle empty_store)) [1, 2, 3] empty_store =
     Inl DivideByZero \<and>
   TestOrAdd RedisBitSet_methods example_hashing
     (fst (From RedisBitSet_methods [] 2 example_handle empty_store)) [1, 2, 3] empty_store =
     Inl DivideByZero \<and>
   TestLocations RedisBitSet_methods
     (fst (From RedisBitSet_methods [] 2 example_handle empty_store)) [5] empty_store =
     Inl DivideByZero \<and>
   (0 :: uint) = 0 \<and>
   Test RedisBitSet_methods example_hashing
     (fst (From RedisBitSet_methods [] 0 example_handle empty_store)) [1, 2, 3] empty_store =
     Inr (True, empty_store)"
proof -
  have a: "(2 :: uint) \<noteq> 0" and b: "[5 :: uint64] \<noteq> []" and c: "(0 :: uint) = 0"
    by simp_all
  show ?thesis
    using a b c
      From_no_clamping [of RedisBitSet_methods "[]" 0 2 example_handle empty_store
        example_hashing "[1, 2, 3]" empty_store "[5]"]
      From_no_clamping [of RedisBitSet_methods "[]" 0 0 example_handle empty_store
        example_hashing "[1, 2, 3]" empty_store "[5]"]
    by blast
qed

theorem From_zero_k_counterexample:
  "f_m (fst (From RedisBitSet_methods [] 0 example_handle empty_store)) = 0 \<and>
   Add RedisBitSet_methods example_hashing
     (fst (From RedisBitSet_methods [] 0 example_handle empty_store)) [1, 2, 3] empty_store =
     Inr empty_store \<and>
   Test RedisBitSet_methods example_hashing
     (fst (From RedisBitSet_methods [] 0 example_handle empty_store)) [1, 2, 3] empty_store =
     Inr (True, empty_store) \<and>
   TestLocations RedisBitSet_methods
     (fst (From RedisBitSet_methods [] 0 example_handle empty_store)) [] empty_store =
     Inr (True, empty_store)"
  by (simp add: From_def FromWithM_def Add_def Add_loop.simps [of _ _ _ _ 0]
      Test_def Test_loop.simps [of _ _ _ _ 0])

section \<open>The sampling of EstimateFalsePositiveRate\<close>








section \<open>Round trips\<close>

text \<open>
  Claim C2. The binary round trip holds on the Redis backend (\<open>binary_round_trip\<close>
  above: for a key and a stored string of at most \<open>maxAlloc\<close> bytes, as every slice
  that \<open>make\<close> returns is, \<open>ReadFrom\<close> on what \<open>WriteTo\<close> wrote returns the byte count \<open>WriteTo\<close> returned
  and leaves the decoding filter equal to the encoded one, handle included, and the
  store as it was). The structured round trip does not hold, for any backend:
  \<open>UnmarshalJSON\<close> on what \<open>MarshalJSON\<close> wrote returns a type error and assigns
  nothing, unless the storage was written as \<open>null\<close>, and then the decoded filter has
  the \<open>m\<close> and \<open>k\<close> of the encoded one and a \<open>nil\<close> storage. By \<open>UnmarshalJSON_nil\<close>
  above no input at all decodes to a filter with a storage. For the Redis backend the
  result is the type error.
\<close>

theorem JSON_round_trip_fails:
  "UnmarshalJSON (MarshalJSON B f w) =
     (if bsJSON B (f_b f) w = JNull then Inr \<lparr>f_m = f_m f, f_k = f_k f, f_b = None\<rparr>
      else Inl UnmarshalTypeError) \<and>
   UnmarshalJSON (MarshalJSON RedisBitSet_methods r v) = Inl UnmarshalTypeError"
proof -
  have a: "UnmarshalJSON (MarshalJSON B f w) =
     (if bsJSON B (f_b f) w = JNull then Inr \<lparr>f_m = f_m f, f_k = f_k f, f_b = None\<rparr>
      else Inl UnmarshalTypeError)" for B :: "('h, 'w) BitSet" and f w
    by (cases "bsJSON B (f_b f) w")
      (simp_all add: UnmarshalJSON_def MarshalJSON_def decode_member_def uint_below_2p64
        save_error_def)
  have "bsJSON RedisBitSet_methods (f_b r) v \<noteq> JNull"
    by (simp add: RedisBitSet_methods_def RedisBitSet_JSON_def)
  with a [of RedisBitSet_methods r v] a [of B f w] show ?thesis by simp
qed

section \<open>Decoding a truncated stream\<close>

text \<open>
  Claim C7, evaluated at two truncated streams, for a filter with \<open>m = 8\<close>, \<open>k = 2\<close>
  and the key \<open>f1\<close>, under which the store holds a string whose first bit is set.

  The first stream ends after the key of the payload (\<open>m = 1000\<close>, \<open>k = 4\<close>, a key
  length of 3 and the three key bytes 1, 2, 3). \<open>ReadFrom\<close> returns \<open>io.EOF\<close> and the
  filter keeps \<open>m = 8\<close> and \<open>k = 2\<close>, but its storage now names the key read from
  the stream, and so does the receiver of the storage's own \<open>ReadFrom\<close>: bit 0, which
  tested true before the failed decode, tests false after it.

  The second stream is cut inside the stored string: it announces 4 bytes and
  holds 1. \<open>ReadFrom\<close> returns no error; it reports 43 bytes read, assigns \<open>m\<close>, \<open>k\<close>
  and the handle, and stores the one byte followed by three zero bytes.
\<close>

theorem ReadFrom_not_atomic:
  "ReadFrom RedisBitSet_methods
     (BigEndian_PutUint64 1000 @ BigEndian_PutUint64 4 @ BigEndian_PutUint64 3 @ [1, 2, 3])
     example_filter example_store =
     (Inr (Inl EOF), example_filter\<lparr>f_b := example_handle\<lparr>bitsetKey := [1, 2, 3]\<rparr>\<rparr>,
      example_store, []) \<and>
   RedisBitSet_ReadFrom (BigEndian_PutUint64 3 @ [1, 2, 3]) example_handle example_store =
     (Inr (Inl EOF), example_handle\<lparr>bitsetKey := [1, 2, 3]\<rparr>, example_store, []) \<and>
   TestLocations RedisBitSet_methods example_filter [0] example_store =
     Inr (True, example_store) \<and>
   TestLocations RedisBitSet_methods
     (example_filter\<lparr>f_b := example_handle\<lparr>bitsetKey := [1, 2, 3]\<rparr>\<rparr>) [0] example_store =
     Inr (False, example_store) \<and>
   ReadFrom RedisBitSet_methods
     (BigEndian_PutUint64 1000 @ BigEndian_PutUint64 4 @ BigEndian_PutUint64 2 @ [102, 49] @
      BigEndian_PutUint64 60 @ BigEndian_PutUint64 4 @ [255])
     example_filter example_store =
     (Inr (Inr 43), \<lparr>f_m = 1000, f_k = 4, f_b = \<lparr>bitsetKey = [102, 49], expiration = 60\<rparr>\<rparr>,
      example_store([102, 49] := [255, 0, 0, 0]), [])"
proof -
  have eof: "binary_Read_uint64 [] = (Inl EOF, [])"
    by (simp add: binary_Read_uint64_def)
  have key: "Buffer_Read [1, 2, 3] 3 = (Inr (3, [1, 2, 3]), [])"
    by (simp add: Buffer_Read_def)
  have r1: "RedisBitSet_ReadFrom (BigEndian_PutUint64 3 @ [1, 2, 3]) example_handle
      example_store = (Inr (Inl EOF), example_handle\<lparr>bitsetKey := [1, 2, 3]\<rparr>, example_store, [])"
    by (simp add: RedisBitSet_ReadFrom_def binary_Read_uint64_PutUint64 key eof
        makeslice_ok_def maxAlloc_def)
  have a: "ReadFrom RedisBitSet_methods
     (BigEndian_PutUint64 1000 @ BigEndian_PutUint64 4 @ BigEndian_PutUint64 3 @ [1, 2, 3])
     example_filter example_store =
     (Inr (Inl EOF), example_filter\<lparr>f_b := example_handle\<lparr>bitsetKey := [1, 2, 3]\<rparr>\<rparr>,
      example_store, [])"
    by (simp add: ReadFrom_def binary_Read_uint64_PutUint64 RedisBitSet_methods_sel r1
        example_filter_def)
  have b: "TestLocations RedisBitSet_methods example_filter [0] example_store =
     Inr (True, example_store)"
    by (simp add: example_filter_def example_handle_def example_store_def empty_store_def
        RedisBitSet_methods_sel RedisBitSet_Test_def redis_GetBit_def redis_offset_ok_def
        bytes_getbit_def)
  have c: "TestLocations RedisBitSet_methods
     (example_filter\<lparr>f_b := example_handle\<lparr>bitsetKey := [1, 2, 3]\<rparr>\<rparr>) [0] example_store =
     Inr (False, example_store)"
    by (simp add: example_filter_def example_handle_def example_store_def empty_store_def
        RedisBitSet_methods_sel RedisBitSet_Test_def redis_GetBit_def redis_offset_ok_def
        bytes_getbit_def)
  have k2: "Buffer_Read
      (102 # 49 # BigEndian_PutUint64 60 @ BigEndian_PutUint64 4 @ [255]) 2 =
      (Inr (2, [102, 49]), BigEndian_PutUint64 60 @ BigEndian_PutUint64 4 @ [255])"
    by (simp add: Buffer_Read_def)
  have v2: "Buffer_Read [255] 4 = (Inr (1, [255, 0, 0, 0]), [])"
    by (simp add: Buffer_Read_def numeral_eq_Suc)
  have r2: "RedisBitSet_ReadFrom
      (BigEndian_PutUint64 2 @ 102 # 49 # BigEndian_PutUint64 60 @ BigEndian_PutUint64 4 @
       [255]) example_handle example_store =
      (Inr (Inr 27), \<lparr>bitsetKey = [102, 49], expiration = 60\<rparr>,
       example_store([102, 49] := [255, 0, 0, 0]), [])"
    by (simp add: RedisBitSet_ReadFrom_def binary_Read_uint64_PutUint64 k2 v2 redis_Set_def
        example_handle_def makeslice_ok_def maxAlloc_def)
  have d: "ReadFrom RedisBitSet_methods
     (BigEndian_PutUint64 1000 @ BigEndian_PutUint64 4 @ BigEndian_PutUint64 2 @ [102, 49] @
      BigEndian_PutUint64 60 @ BigEndian_PutUint64 4 @ [255])
     example_filter example_store =
     (Inr (Inr 43), \<lparr>f_m = 1000, f_k = 4, f_b = \<lparr>bitsetKey = [102, 49], expiration = 60\<rparr>\<rparr>,
      example_store([102, 49] := [255, 0, 0, 0]), [])"
    by (simp add: ReadFrom_def binary_Read_uint64_PutUint64 RedisBitSet_methods_sel r2
        example_filter_def)
  from a r1 b c d show ?thesis by blast
qed

end
